theory Spec2Isabelle
  imports Complex_Main
begin

section \<open>Numeric primitives used by the aliasing demo\<close>

text \<open>
  The program computes with Python numbers and numpy arrays; arrays are modelled as
  lists. Python floats and numpy's \<open>float64\<close> are IEEE doubles, and how many points
  \<open>np.arange\<close> returns, and where they lie, depends on their rounding. So the scalar
  products and quotients and \<open>np.arange\<close> are modelled in double arithmetic: each
  operation returns the exact result rounded by \<open>fl\<close> to the nearest number with a
  53-bit significand, ties to the even significand. The exponent range is not bounded,
  so overflow to infinity and subnormal numbers are not modelled. A real number stands
  for a Python int or float; an int is taken in the range where its conversion to a
  double is exact.

  The elementwise functions \<open>np.sin\<close>, \<open>np.exp\<close>, \<open>abs\<close>, the products inside
  them, \<open>np.sum\<close> and the positions of the marker lines are modelled by the exact
  real and complex functions they approximate, and the store into the \<open>complex64\<close>
  array keeps the value. Of these the properties below use only the shape of the
  computation, \<open>sin 0 = 0\<close> and \<open>0 * z = 0\<close>; none rests on an identity of
  exact arithmetic that rounding breaks, such as the periodicity of \<open>exp\<close>.
\<close>

definition round_half_even :: "real \<Rightarrow> int" where
  "round_half_even y =
     (let f = \<lfloor>y\<rfloor>
      in if y - of_int f < 1 / 2 then f
         else if 1 / 2 < y - of_int f then f + 1
         else if even f then f else f + 1)"

definition fl :: "real \<Rightarrow> real" where
  "fl x =
     (if x = 0 then 0
      else let e = \<lfloor>log 2 \<bar>x\<bar>\<rfloor> - 52
           in of_int (round_half_even (x / 2 powr of_int e)) * 2 powr of_int e)"

text \<open>
  Exceptions are values of type \<open>error\<close>: the only ones the code can raise on numeric
  input are Python's \<open>ZeroDivisionError\<close> (the scalar divisions \<open>1/duree\<close>,
  \<open>1/self.fs\<close>, \<open>1/(10*self.f_max)\<close>) and numpy's \<open>IndexError\<close> (the fancy index
  \<open>freqs[fill_idxs]\<close>).
\<close>

datatype error = ZeroDivisionError | IndexError

definition py_div :: "real \<Rightarrow> real \<Rightarrow> error + real" where
  "py_div a b = (if b = 0 then Inl ZeroDivisionError else Inr (fl (a / b)))"

definition py_mul :: "real \<Rightarrow> real \<Rightarrow> real" where
  "py_mul a b = fl (a * b)"

text \<open>
  \<open>np.arange(start, stop, step)\<close> on floats: the length is the ceiling of the double
  quotient \<open>(stop - start) / step\<close> (no element when that is not positive). The first
  two elements are \<open>start\<close> and \<open>start + step\<close>; numpy then takes their difference
  \<open>delta\<close> and fills element \<open>i\<close> with \<open>start + i * delta\<close>, every operation
  rounded. Every caller passes a step obtained from \<open>py_div\<close>, which is a double and
  never zero.
\<close>

definition arange :: "real \<Rightarrow> real \<Rightarrow> real \<Rightarrow> real list" where
  "arange start stop step =
     (let n = nat \<lceil>fl (fl (stop - start) / step)\<rceil>;
          nxt = fl (start + step);
          delta = fl (nxt - start)
      in map (\<lambda>i. if i = 0 then start
                   else if i = 1 then nxt
                   else fl (start + fl (real i * delta))) [0..<n])"

definition np_sum :: "complex list \<Rightarrow> complex" where
  "np_sum xs = sum_list xs"

section \<open>The DFT engine\<close>

text \<open>
  \<open>compute_dft(fs, duree, sig)\<close>: the frequency axis, an array of zeros of the same
  shape, and the loop over \<open>enumerate(freqs)\<close> that stores one sum per index \<open>k\<close>.
  The loop variable \<open>f\<close> is bound but never read, as in the source.
\<close>

definition compute_dft :: "real \<Rightarrow> real \<Rightarrow> real list \<Rightarrow> error + (real list \<times> complex list)" where
  "compute_dft fs duree sig =
     (case py_div 1 duree of
        Inl e \<Rightarrow> Inl e
      | Inr step \<Rightarrow>
          let freqs = arange 0 (py_mul 3 fs) step;
              tf0 = replicate (length freqs) (0 :: complex);
              N = length sig;
              idxs = [0..<N];
              tf = fold (\<lambda>(k, f) tf.
                     tf[k := np_sum (map2 (\<lambda>s n. of_real s *
                               exp (- \<i> * 2 * of_real pi * of_nat k * of_nat n / of_nat N))
                             sig idxs)])
                     (enumerate 0 freqs) tf0
          in Inr (freqs, tf))"

section \<open>The controller: \<open>Aliasing_Window\<close>\<close>

text \<open>
  What the controller draws on an axes object is recorded as the list of the calls made
  on it, in order: \<open>plot\<close> (with its optional format string), \<open>axvline\<close> (position,
  colour, the optional dash pattern, line width), \<open>fill_between\<close> and the labelling
  calls. \<open>clear()\<close> empties the list.
\<close>

datatype artist =
    Plot "real list" "real list" "string option"
  | Axvline real string "(real \<times> real) option" real
  | FillBetween "real list" "real list" real
  | SetXlim real real
  | SetTitle string
  | SetXlabel string
  | SetYlabel string

text \<open>The arguments the slider widget is built with.\<close>

record slider =
  label :: string
  valmin :: real
  valmax :: real
  valinit :: real
  valstep :: real

text \<open>
  The fields of \<open>Aliasing_Window\<close>: the five parameters, the time-domain axes \<open>td\<close>,
  the frequency-domain axes \<open>fd\<close> and the slider. The figure, its grid and the axes
  that hosts the slider carry no data of the program and are left out.
\<close>

record window =
  fs :: real
  freq :: real
  duree :: real
  f_min :: real
  f_max :: real
  td :: "artist list"
  fd :: "artist list"
  freq_slider :: "slider option"

text \<open>
  A method mutates the object and may raise: it maps the object to the exception raised,
  if any, and the object as the method left it. \<open>then_do\<close> runs the next statement
  only when the previous one returned.
\<close>

type_synonym outcome = "error option \<times> window"

definition then_do :: "outcome \<Rightarrow> (window \<Rightarrow> outcome) \<Rightarrow> outcome" where
  "then_do r f = (case r of (Some e, s) \<Rightarrow> (Some e, s) | (None, s) \<Rightarrow> f s)"

definition gen_sig :: "window \<Rightarrow> error + (real list \<times> real list)" where
  "gen_sig s =
     (case py_div 1 (fs s) of
        Inl e \<Rightarrow> Inl e
      | Inr step \<Rightarrow>
          let t = arange 0 (duree s) step;
              sig = map (\<lambda>x. sin (2 * pi * freq s * x)) t
          in Inr (t, sig))"

definition init_sliders :: "window \<Rightarrow> window" where
  "init_sliders s =
     s\<lparr>freq_slider := Some \<lparr>label = ''Fr'' @ [CHR 0xE9] @ ''quence'', valmin = f_min s,
                              valmax = f_max s, valinit = freq s, valstep = 1\<rparr>\<rparr>"

definition init_time_domain :: "window \<Rightarrow> outcome" where
  "init_time_domain s =
     (case py_div 1 (py_mul 10 (f_max s)) of
        Inl e \<Rightarrow> (Some e, s)
      | Inr step \<Rightarrow>
          let an_t = arange 0 (duree s) step;
              an_sig = map (\<lambda>x. sin (2 * pi * freq s * x)) an_t
          in case gen_sig s of
               Inl e \<Rightarrow> (Some e, s)
             | Inr (t, sig) \<Rightarrow>
                 (None, s\<lparr>td := td s @ [Plot an_t an_sig None, Plot t sig (Some ''r+:''),
                                         SetTitle ''Domaine temporel'',
                                         SetXlabel ''Temps [s]'']\<rparr>))"

text \<open>
  \<open>init_freq_domain\<close>: the magnitude plot, the loop over \<open>range(4)\<close> drawing one blue
  and one red dashed line per index, the solid blue line, then the shaded band.
  \<open>freqs[fill_idxs]\<close> raises \<open>IndexError\<close> when an index is out of bounds, after
  the lines have been drawn.
\<close>

definition init_freq_domain :: "window \<Rightarrow> outcome" where
  "init_freq_domain s =
     (case gen_sig s of
        Inl e \<Rightarrow> (Some e, s)
      | Inr (_, sig) \<Rightarrow>
         (case compute_dft (fs s) (duree s) sig of
            Inl e \<Rightarrow> (Some e, s)
          | Inr (freqs, tf) \<Rightarrow>
              let s1 = s\<lparr>fd := fd s @ [Plot freqs (map cmod tf) None]\<rparr>;
                  dashes = (1, 1);
                  width = 2;
                  s2 = fold (\<lambda>idx s.
                         s\<lparr>fd := fd s @
                            [Axvline ((of_int idx - 1) * fs s + freq s) ''b'' (Some dashes) width,
                             Axvline (- freq s + (of_int idx + 1) * fs s) ''r'' (Some dashes) width]\<rparr>)
                         (map int [0..<4]) s1;
                  s3 = s2\<lparr>fd := fd s2 @ [Axvline (freq s2) ''b'' None width]\<rparr>;
                  fill_idxs = [0..<length sig]
              in if \<exists>i \<in> set fill_idxs. length freqs \<le> i then (Some IndexError, s3)
                 else (None, s3\<lparr>fd := fd s3 @
                         [FillBetween (map (\<lambda>i. freqs ! i) fill_idxs)
                            (map (\<lambda>i. cmod (tf ! i)) fill_idxs) 0,
                          SetXlim 0 (py_mul 3 (fs s3)),
                          SetTitle (''Domaine fr'' @ [CHR 0xE9] @ ''quenciel''),
                          SetXlabel (''Fr'' @ [CHR 0xE9] @ ''quence [Hz]''),
                          SetYlabel ''Amplitude'']\<rparr>)))"

definition update :: "real \<Rightarrow> window \<Rightarrow> outcome" where
  "update f s =
     then_do (init_time_domain (s\<lparr>freq := f, td := [], fd := []\<rparr>)) init_freq_domain"

text \<open>The constructor, \<open>Aliasing_Window()\<close>.\<close>

definition Aliasing_Window :: outcome where
  "Aliasing_Window =
     (let s = \<lparr>fs = 50, freq = 1, duree = 3, f_min = 1, f_max = 150,
                td = [], fd = [], freq_slider = None\<rparr>
      in then_do (init_time_domain (init_sliders s)) init_freq_domain)"

text \<open>
  The states the controller can be in: the one the constructor builds, and every state
  an \<open>update\<close> leaves behind.
\<close>

inductive reachable :: "window \<Rightarrow> bool" where
  constructed: "reachable (snd Aliasing_Window)"
| updated: "reachable s \<Longrightarrow> reachable (snd (update f s))"

text \<open>Reading the vertical lines off an axes: their positions, and the solid ones.\<close>

fun axvline_x :: "artist \<Rightarrow> real option" where
  "axvline_x (Axvline x c d w) = Some x"
| "axvline_x _ = None"

fun solid_axvline :: "artist \<Rightarrow> bool" where
  "solid_axvline (Axvline x c d w) = (d = None)"
| "solid_axvline _ = False"

definition marker_positions :: "artist list \<Rightarrow> real set" where
  "marker_positions arts = set (List.map_filter axvline_x arts)"

section \<open>Properties of the rounding\<close>

lemma round_half_even_error: "\<bar>of_int (round_half_even y) - y\<bar> \<le> 1 / 2"
  unfolding round_half_even_def Let_def by (auto simp: abs_le_iff; linarith)

lemma round_half_even_near:
  assumes "\<bar>y - of_int m\<bar> < 1 / 2"
  shows "round_half_even y = m"
proof -
  have "\<bar>of_int (round_half_even y) - y\<bar> \<le> 1 / 2"
    by (rule round_half_even_error)
  with assms have "\<bar>real_of_int (round_half_even y) - of_int m\<bar> < 1"
    by linarith
  then have "\<bar>real_of_int (round_half_even y - m)\<bar> < 1"
    by simp
  then have "\<bar>round_half_even y - m\<bar> < 1"
    by linarith
  then show ?thesis by simp
qed

lemma round_half_even_of_int: "round_half_even (of_int n) = n"
  by (rule round_half_even_near) simp

lemma fl_zero: "fl 0 = 0"
  by (simp add: fl_def)

lemma fl_binade:
  assumes "x \<noteq> 0"
  defines "e \<equiv> \<lfloor>log 2 \<bar>x\<bar>\<rfloor> - 52"
  shows "2 ^ 52 \<le> \<bar>x\<bar> / 2 powr of_int e" and "\<bar>x\<bar> / 2 powr of_int e < 2 ^ 53"
proof -
  from assms(1) have pos: "0 < \<bar>x\<bar>" by simp
  have "\<lfloor>log 2 \<bar>x\<bar>\<rfloor> = e + 52" by (simp add: e_def)
  with pos have b: "2 powr of_int (e + 52) \<le> \<bar>x\<bar>" "\<bar>x\<bar> < 2 powr (of_int (e + 52) + 1)"
    by (simp_all add: floor_log_eq_powr_iff)
  have p: "(2::real) powr of_int (e + 52) = 2 powr of_int e * 2 ^ 52"
    by (simp add: powr_add)
  have q: "(2::real) powr (of_int (e + 52) + 1) = 2 powr of_int e * 2 ^ 53"
    by (simp add: powr_add)
  have pe: "0 < (2::real) powr of_int e" by simp
  from b(1) p pe show "2 ^ 52 \<le> \<bar>x\<bar> / 2 powr of_int e"
    by (simp add: pos_le_divide_eq mult.commute)
  from b(2) q pe show "\<bar>x\<bar> / 2 powr of_int e < 2 ^ 53"
    by (simp add: pos_divide_less_eq mult.commute)
qed

lemma fl_error: "\<bar>fl x - x\<bar> \<le> \<bar>x\<bar> / 2 ^ 53"
proof (cases "x = 0")
  case True
  then show ?thesis by (simp add: fl_zero)
next
  case False
  define e where "e = \<lfloor>log 2 \<bar>x\<bar>\<rfloor> - 52"
  define p where "p = (2::real) powr of_int e"
  define y where "y = x / p"
  have pp: "0 < p" by (simp add: p_def)
  have flx: "fl x = of_int (round_half_even y) * p"
    using False by (simp add: fl_def e_def p_def y_def Let_def)
  have x: "x = y * p" using pp by (simp add: y_def)
  have "fl x - x = (of_int (round_half_even y) - y) * p"
    using pp by (simp add: flx y_def left_diff_distrib)
  then have "\<bar>fl x - x\<bar> = \<bar>of_int (round_half_even y) - y\<bar> * p"
    using pp by (simp add: abs_mult)
  also have "\<dots> \<le> 1 / 2 * p"
    using round_half_even_error [of y] pp by (intro mult_right_mono) simp_all
  also have "\<dots> \<le> \<bar>x\<bar> / 2 ^ 53"
  proof -
    from fl_binade(1) [OF False] have "2 ^ 52 \<le> \<bar>x\<bar> / p"
      by (simp add: p_def e_def)
    with pp have "2 ^ 52 * p \<le> \<bar>x\<bar>"
      by (simp add: pos_le_divide_eq)
    then show ?thesis by simp
  qed
  finally show ?thesis .
qed

lemma fl_lower: "0 \<le> x \<Longrightarrow> x * (1 - 1 / 2 ^ 53) \<le> fl x"
proof -
  assume "0 \<le> x"
  then have "x * (1 - 1 / 2 ^ 53) = x - \<bar>x\<bar> / 2 ^ 53"
    by (simp add: right_diff_distrib)
  with fl_error [of x] show ?thesis
    by linarith
qed

lemma fl_upper: "0 \<le> x \<Longrightarrow> fl x \<le> x * (1 + 1 / 2 ^ 53)"
proof -
  assume "0 \<le> x"
  then have "x * (1 + 1 / 2 ^ 53) = x + \<bar>x\<bar> / 2 ^ 53"
    by (simp add: distrib_left)
  with fl_error [of x] show ?thesis
    by linarith
qed

lemma fl_lower_neg: "x \<le> 0 \<Longrightarrow> x * (1 + 1 / 2 ^ 53) \<le> fl x"
proof -
  assume "x \<le> 0"
  then have "x * (1 + 1 / 2 ^ 53) = x - \<bar>x\<bar> / 2 ^ 53"
    by (simp add: distrib_left)
  with fl_error [of x] show ?thesis
    by linarith
qed

lemma fl_upper_neg: "x \<le> 0 \<Longrightarrow> fl x \<le> x * (1 - 1 / 2 ^ 53)"
proof -
  assume "x \<le> 0"
  then have "x * (1 - 1 / 2 ^ 53) = x + \<bar>x\<bar> / 2 ^ 53"
    by (simp add: right_diff_distrib)
  with fl_error [of x] show ?thesis
    by linarith
qed

lemma fl_pos: "0 < x \<Longrightarrow> 0 < fl x"
proof -
  assume x: "0 < x"
  then have "0 < x * (1 - 1 / 2 ^ 53)" by simp
  also from x have "\<dots> \<le> fl x" by (intro fl_lower) simp
  finally show ?thesis .
qed

lemma fl_neg: "x < 0 \<Longrightarrow> fl x < 0"
proof -
  assume x: "x < 0"
  then have "fl x \<le> x * (1 - 1 / 2 ^ 53)" by (intro fl_upper_neg) simp
  also from x have "\<dots> < 0" by (simp add: mult_neg_pos)
  finally show ?thesis .
qed

lemma fl_nonneg: "0 \<le> x \<Longrightarrow> 0 \<le> fl x"
  using fl_pos [of x] by (cases "x = 0") (simp_all add: fl_zero)

lemma fl_nonpos: "x \<le> 0 \<Longrightarrow> fl x \<le> 0"
  using fl_neg [of x] by (cases "x = 0") (simp_all add: fl_zero)

lemma fl_eq_zero_iff: "fl x = 0 \<longleftrightarrow> x = 0"
  using fl_pos [of x] fl_neg [of x] by (cases x "0::real" rule: linorder_cases) (auto simp: fl_zero)

lemma fl_in_binade:
  assumes "2 ^ 52 \<le> \<bar>x\<bar> / 2 powr of_int e" and "\<bar>x\<bar> / 2 powr of_int e < 2 ^ 53"
  shows "fl x = of_int (round_half_even (x / 2 powr of_int e)) * 2 powr of_int e"
proof -
  have pe: "0 < (2::real) powr of_int e" by simp
  from assms(1) pe have nz: "x \<noteq> 0" by auto
  from assms(1) pe have "2 powr of_int e * 2 ^ 52 \<le> \<bar>x\<bar>"
    by (simp add: pos_le_divide_eq mult.commute)
  then have lo: "2 powr of_int (e + 52) \<le> \<bar>x\<bar>"
    by (simp add: powr_add)
  from assms(2) pe have "\<bar>x\<bar> < 2 powr of_int e * 2 ^ 53"
    by (simp add: pos_divide_less_eq mult.commute)
  then have hi: "\<bar>x\<bar> < 2 powr (of_int (e + 52) + 1)"
    by (simp add: powr_add)
  from nz lo hi have "\<lfloor>log 2 \<bar>x\<bar>\<rfloor> = e + 52"
    by (simp add: floor_log_eq_powr_iff)
  with nz show ?thesis
    by (simp add: fl_def)
qed

lemma fl_eval:
  assumes "2 ^ 52 \<le> \<bar>x\<bar> * 2 ^ n" and "\<bar>x\<bar> * 2 ^ n < 2 ^ 53"
    and "\<bar>x * 2 ^ n - of_int m\<bar> < 1 / 2"
  shows "fl x = of_int m / 2 ^ n"
proof -
  have p: "(2::real) powr of_int (- int n) = 1 / 2 ^ n"
    by (simp add: powr_minus powr_realpow inverse_eq_divide)
  have "fl x = of_int (round_half_even (x / 2 powr of_int (- int n))) * 2 powr of_int (- int n)"
    using assms(1,2) by (intro fl_in_binade) (simp_all only: p, simp_all)
  also have "x / 2 powr of_int (- int n) = x * 2 ^ n"
    by (simp only: p) simp
  also have "round_half_even (x * 2 ^ n) = m"
    using assms(3) by (rule round_half_even_near)
  finally show ?thesis
    by (simp only: p) simp
qed

lemma fl_idem: "fl (fl x) = fl x"
proof (cases "x = 0")
  case True
  then show ?thesis by (simp add: fl_zero)
next
  case False
  define e where "e = \<lfloor>log 2 \<bar>x\<bar>\<rfloor> - 52"
  define p where "p = (2::real) powr of_int e"
  define y where "y = x / p"
  define r where "r = round_half_even y"
  have pp: "0 < p" by (simp add: p_def)
  have z: "fl x = of_int r * p"
    using False by (simp add: fl_def e_def p_def y_def r_def Let_def)
  have ylo: "2 ^ 52 \<le> \<bar>y\<bar>" and yhi: "\<bar>y\<bar> < 2 ^ 53"
    using fl_binade [OF False] pp by (simp_all add: y_def p_def e_def abs_divide)
  have err: "\<bar>of_int r - y\<bar> \<le> 1 / 2"
    unfolding r_def by (rule round_half_even_error)
  from err ylo have "2 ^ 52 - 1 / 2 \<le> \<bar>real_of_int r\<bar>" by linarith
  then have "2 ^ 52 - 1 < \<bar>real_of_int r\<bar>" by linarith
  then have "real_of_int (2 ^ 52 - 1) < real_of_int \<bar>r\<bar>" by simp
  then have "2 ^ 52 - 1 < \<bar>r\<bar>" by (simp only: of_int_less_iff)
  then have rlo: "2 ^ 52 \<le> \<bar>r\<bar>" by linarith
  from err yhi have "\<bar>real_of_int r\<bar> < 2 ^ 53 + 1" by linarith
  then have "real_of_int \<bar>r\<bar> < real_of_int (2 ^ 53 + 1)" by simp
  then have "\<bar>r\<bar> < 2 ^ 53 + 1" by (simp only: of_int_less_iff)
  then have rhi: "\<bar>r\<bar> \<le> 2 ^ 53" by linarith
  show ?thesis
  proof (cases "\<bar>r\<bar> = 2 ^ 53")
    case False
    with rhi have "\<bar>r\<bar> < 2 ^ 53" by linarith
    then have "real_of_int \<bar>r\<bar> < real_of_int (2 ^ 53)"
      by (simp only: of_int_less_iff)
    then have hi: "\<bar>real_of_int r\<bar> < 2 ^ 53"
      by simp
    from rlo have "real_of_int (2 ^ 52) \<le> real_of_int \<bar>r\<bar>"
      by (simp only: of_int_le_iff)
    then have lo: "2 ^ 52 \<le> \<bar>real_of_int r\<bar>"
      by simp
    have q: "fl x / p = of_int r" using pp by (simp add: z)
    have aq: "\<bar>fl x\<bar> / 2 powr of_int e = \<bar>real_of_int r\<bar>"
      using pp by (simp add: z abs_mult p_def)
    have "fl (fl x) = of_int (round_half_even (fl x / 2 powr of_int e)) * 2 powr of_int e"
      by (rule fl_in_binade) (simp_all only: aq lo hi)
    then show ?thesis
      using q by (simp add: p_def round_half_even_of_int z)
  next
    case True
    then obtain h :: int where h: "r = 2 * h" and ah: "\<bar>h\<bar> = 2 ^ 52"
      by (cases "0 \<le> r") (auto intro: that [of "2 ^ 52"] that [of "- (2 ^ 52)"])
    have p2: "(2::real) powr of_int (e + 1) = 2 * p"
      by (simp add: p_def powr_add)
    have q: "fl x / (2 * p) = of_int h" using pp by (simp add: z h)
    from ah have "real_of_int \<bar>h\<bar> = real_of_int (2 ^ 52)"
      by (simp only:)
    then have ahr: "\<bar>real_of_int h\<bar> = 2 ^ 52"
      by simp
    have aq: "\<bar>fl x\<bar> / 2 powr of_int (e + 1) = \<bar>real_of_int h\<bar>"
      using pp by (simp only: p2) (simp add: z h abs_mult)
    have "fl (fl x) = of_int (round_half_even (fl x / 2 powr of_int (e + 1))) * 2 powr of_int (e + 1)"
      by (rule fl_in_binade) (simp_all only: aq ahr, simp_all)
    then have "fl (fl x) = of_int (round_half_even (fl x / (2 * p))) * (2 * p)"
      by (simp only: p2)
    then show ?thesis
      by (simp add: q round_half_even_of_int z h)
  qed
qed

lemma fl_abs_lower: "\<bar>x\<bar> * (1 - 1 / 2 ^ 53) \<le> \<bar>fl x\<bar>"
proof -
  have "\<bar>x\<bar> * (1 - 1 / 2 ^ 53) = \<bar>x\<bar> - \<bar>x\<bar> / 2 ^ 53"
    by (simp add: right_diff_distrib)
  with fl_error [of x] show ?thesis by linarith
qed

lemma fl_abs_upper: "\<bar>fl x\<bar> \<le> \<bar>x\<bar> * (1 + 1 / 2 ^ 53)"
proof -
  have "\<bar>x\<bar> * (1 + 1 / 2 ^ 53) = \<bar>x\<bar> + \<bar>x\<bar> / 2 ^ 53"
    by (simp add: distrib_left)
  with fl_error [of x] show ?thesis by linarith
qed

lemma fl_quotient_bounds:
  assumes "0 < a * b"
  shows "\<bar>a\<bar> * \<bar>b\<bar> * (1 - 1 / 2 ^ 51) \<le> fl (fl a / fl (1 / b))"
    and "fl (fl a / fl (1 / b)) \<le> \<bar>a\<bar> * \<bar>b\<bar> * (1 + 1 / 2 ^ 51)"
    and "0 < fl (fl a / fl (1 / b))"
proof -
  define \<alpha> :: real where "\<alpha> = 1 - 1 / 2 ^ 53"
  define \<beta> :: real where "\<beta> = 1 + 1 / 2 ^ 53"
  define Q where "Q = fl a / fl (1 / b)"
  define P where "P = \<bar>a\<bar> * \<bar>b\<bar>"
  have \<alpha>: "0 < \<alpha>" and \<beta>: "0 < \<beta>" by (simp_all add: \<alpha>_def \<beta>_def)
  from assms have nz: "a \<noteq> 0" "b \<noteq> 0" by auto
  then have P: "0 < P" by (simp add: P_def)
  from assms have sign: "(0 < a \<and> 0 < b) \<or> (a < 0 \<and> b < 0)"
    by (simp add: zero_less_mult_iff)
  have Qabs: "Q = \<bar>fl a\<bar> / \<bar>fl (1 / b)\<bar>"
  proof -
    from sign show ?thesis
    proof
      assume "0 < a \<and> 0 < b"
      then have "0 < fl a" "0 < fl (1 / b)" by (simp_all add: fl_pos)
      then show ?thesis by (simp add: Q_def)
    next
      assume "a < 0 \<and> b < 0"
      then have "fl a < 0" "fl (1 / b) < 0" by (simp_all add: fl_neg)
      then show ?thesis by (simp add: Q_def)
    qed
  qed
  have a_lo: "\<alpha> * \<bar>a\<bar> \<le> \<bar>fl a\<bar>" and a_hi: "\<bar>fl a\<bar> \<le> \<beta> * \<bar>a\<bar>"
    using fl_abs_lower [of a] fl_abs_upper [of a] by (simp_all add: \<alpha>_def \<beta>_def mult.commute)
  have b_lo: "\<alpha> / \<bar>b\<bar> \<le> \<bar>fl (1 / b)\<bar>" and b_hi: "\<bar>fl (1 / b)\<bar> \<le> \<beta> / \<bar>b\<bar>"
    using fl_abs_lower [of "1 / b"] fl_abs_upper [of "1 / b"]
    by (simp_all add: \<alpha>_def \<beta>_def abs_divide mult.commute)
  from nz \<alpha> have b_pos: "0 < \<alpha> / \<bar>b\<bar>" by simp
  with b_lo have fb_pos: "0 < \<bar>fl (1 / b)\<bar>" by linarith
  have Q_hi: "Q \<le> \<beta> / \<alpha> * P"
  proof -
    have "Q \<le> (\<beta> * \<bar>a\<bar>) / (\<alpha> / \<bar>b\<bar>)"
      unfolding Qabs using a_hi b_pos b_lo by (intro frac_le) simp_all
    also have "\<dots> = \<beta> / \<alpha> * P"
      using nz \<alpha> by (simp add: P_def)
    finally show ?thesis .
  qed
  have Q_lo: "\<alpha> / \<beta> * P \<le> Q"
  proof -
    have "\<alpha> / \<beta> * P = (\<alpha> * \<bar>a\<bar>) / (\<beta> / \<bar>b\<bar>)"
      using nz \<beta> by (simp add: P_def)
    also have "\<dots> \<le> Q"
      unfolding Qabs using a_lo b_hi fb_pos \<alpha> by (intro frac_le) simp_all
    finally show ?thesis .
  qed
  from \<alpha> \<beta> P have "0 < \<alpha> / \<beta> * P" by simp
  with Q_lo have Q_pos: "0 < Q" by linarith
  then show "0 < fl (fl a / fl (1 / b))"
    unfolding Q_def by (rule fl_pos)
  have "fl Q \<le> Q * \<beta>"
    using Q_pos fl_upper [of Q] by (simp add: \<beta>_def)
  also have "\<dots> \<le> (\<beta> / \<alpha> * P) * \<beta>"
    using Q_hi \<beta> by (intro mult_right_mono) simp_all
  also have "\<dots> = P * (\<beta> * \<beta> / \<alpha>)"
    by simp
  also have "\<dots> \<le> P * (1 + 1 / 2 ^ 51)"
    using P by (intro mult_left_mono) (simp_all add: \<alpha>_def \<beta>_def)
  finally show "fl (fl a / fl (1 / b)) \<le> \<bar>a\<bar> * \<bar>b\<bar> * (1 + 1 / 2 ^ 51)"
    by (simp add: Q_def P_def)
  have "P * (1 - 1 / 2 ^ 51) \<le> P * (\<alpha> * \<alpha> / \<beta>)"
    using P by (intro mult_left_mono) (simp_all add: \<alpha>_def \<beta>_def)
  also have "\<dots> = (\<alpha> / \<beta> * P) * \<alpha>"
    by simp
  also have "\<dots> \<le> Q * \<alpha>"
    using Q_lo \<alpha> by (intro mult_right_mono) simp_all
  also have "\<dots> \<le> fl Q"
    using Q_pos fl_lower [of Q] by (simp add: \<alpha>_def)
  finally show "\<bar>a\<bar> * \<bar>b\<bar> * (1 - 1 / 2 ^ 51) \<le> fl (fl a / fl (1 / b))"
    by (simp add: Q_def P_def)
qed

lemma fl_quotient_nonpos:
  assumes "a * b \<le> 0" and "b \<noteq> 0"
  shows "fl (fl a / fl (1 / b)) \<le> 0"
proof -
  have "fl a / fl (1 / b) \<le> 0"
  proof (cases "0 < b")
    case True
    with assms(1) have "a \<le> 0" by (simp add: mult_le_0_iff)
    then have "fl a \<le> 0" by (rule fl_nonpos)
    moreover from True have "0 < fl (1 / b)" by (simp add: fl_pos)
    ultimately show ?thesis by (simp add: divide_nonpos_pos)
  next
    case False
    with assms(2) have b: "b < 0" by simp
    with assms(1) have "0 \<le> a" by (simp add: mult_le_0_iff)
    then have "0 \<le> fl a" by (rule fl_nonneg)
    moreover from b have "fl (1 / b) < 0" by (simp add: fl_neg)
    ultimately show ?thesis by (simp add: divide_nonneg_neg)
  qed
  then show ?thesis by (rule fl_nonpos)
qed

lemma fl_1: "fl 1 = 1"
  using fl_eval [of 1 52 "2 ^ 52"] by simp

lemma fl_2: "fl 2 = 2"
  using fl_eval [of 2 51 "2 ^ 52"] by simp

lemma fl_3: "fl 3 = 3"
  using fl_eval [of 3 51 "3 * 2 ^ 51"] by simp

lemma fl_half: "fl (1 / 2) = 1 / 2"
  using fl_eval [of "1 / 2" 53 "2 ^ 52"] by simp

lemma fl_third: "fl (1 / 3) = 6004799503160661 / 2 ^ 54"
  using fl_eval [of "1 / 3" 54 6004799503160661] by simp

lemma fl_49th: "fl (1 / 49) = 5882252574524729 / 2 ^ 58"
  using fl_eval [of "1 / 49" 58 5882252574524729] by simp

lemma fl_50th: "fl (1 / 50) = 5764607523034235 / 2 ^ 58"
  using fl_eval [of "1 / 50" 58 5764607523034235] by simp

lemma two_roundings:
  fixes x y c :: real
  assumes "\<bar>y - x\<bar> \<le> \<bar>x\<bar> / 2 ^ 53" and "\<bar>x - c\<bar> \<le> c / 2 ^ 53"
  shows "\<bar>y - c\<bar> \<le> c / 2 ^ 51"
proof -
  from assms(2) have c0: "0 \<le> c / 2 ^ 53" by linarith
  then have c: "0 \<le> c" by simp
  have e: "c / 2 ^ 53 \<le> c" using c by (simp add: field_simps)
  with assms(2) have x0: "0 \<le> x" by linarith
  from assms(2) have xu: "x \<le> c + c / 2 ^ 53" by linarith
  then have "x / 2 ^ 53 \<le> (c + c / 2 ^ 53) / 2 ^ 53"
    by (simp add: divide_right_mono)
  also have "\<dots> \<le> 2 * (c / 2 ^ 53)"
    using c by (simp add: field_simps)
  finally have "\<bar>x\<bar> / 2 ^ 53 \<le> 2 * (c / 2 ^ 53)"
    using x0 by simp
  with assms have "\<bar>y - c\<bar> \<le> 3 * (c / 2 ^ 53)"
    by linarith
  also have "\<dots> \<le> c / 2 ^ 51"
    using c by (simp add: field_simps)
  finally show ?thesis .
qed

lemma grid_below:
  fixes y c a :: real
  assumes "\<bar>y - c\<bar> \<le> c / 2 ^ 51" and "c < a * (1 + 1 / 2 ^ 51)" and "0 < a"
  shows "y < a * (1 + 1 / 2 ^ 49)"
proof -
  from assms(1) have "y \<le> c + c / 2 ^ 51" by linarith
  also have "\<dots> = c * (1 + 1 / 2 ^ 51)"
    by (simp add: distrib_left)
  also have "\<dots> < a * (1 + 1 / 2 ^ 51) * (1 + 1 / 2 ^ 51)"
    using assms(2) by (intro mult_strict_right_mono) simp_all
  also have "\<dots> = a * ((1 + 1 / 2 ^ 51) * (1 + 1 / 2 ^ 51))"
    by simp
  also have "\<dots> \<le> a * (1 + 1 / 2 ^ 49)"
    using assms(3) by (intro mult_left_mono) simp_all
  finally show ?thesis .
qed

lemma fl_5: "fl 5 = 5"
  using fl_eval [of 5 50 "5 * 2 ^ 50"] by simp

lemma fl_9: "fl 9 = 9"
  using fl_eval [of 9 49 "9 * 2 ^ 49"] by simp

lemma fl_150: "fl 150 = 150"
  using fl_eval [of 150 45 "150 * 2 ^ 45"] by simp

lemma fl_3_halves: "fl (3 / 2) = 3 / 2"
  using fl_eval [of "3 / 2" 52 "3 * 2 ^ 51"] by simp

lemma grid_bound_below:
  assumes "k < n" and "0 \<le> h" and "real (n - 1) * h * (1 + 1 / 2 ^ 53) < b"
  shows "fl (real k * h) < b"
proof -
  from assms(1) have "real k \<le> real (n - 1)" by simp
  then have le: "real k * h \<le> real (n - 1) * h"
    using assms(2) by (rule mult_right_mono)
  from assms(2) have x: "0 \<le> real k * h" by simp
  from le have "real k * h * (1 + 1 / 2 ^ 53) \<le> real (n - 1) * h * (1 + 1 / 2 ^ 53)"
    by (rule mult_right_mono) simp
  moreover from x have "fl (real k * h) \<le> real k * h * (1 + 1 / 2 ^ 53)"
    by (rule fl_upper)
  ultimately show ?thesis
    using assms(3) by linarith
qed

section \<open>Properties of the engine\<close>

lemma length_arange:
  "length (arange start stop step) = nat \<lceil>fl (fl (stop - start) / step)\<rceil>"
  by (simp add: arange_def Let_def)

lemma nth_arange_0:
  assumes "i < length (arange 0 stop (fl h))"
  shows "arange 0 stop (fl h) ! i = fl (real i * fl h)"
proof -
  from assms have "i < nat \<lceil>fl (fl (stop - 0) / fl h)\<rceil>"
    by (simp only: length_arange)
  then have "arange 0 stop (fl h) ! i =
      (if i = 0 then 0 else if i = 1 then fl (0 + fl h)
       else fl (0 + fl (real i * fl (fl (0 + fl h) - 0))))"
    by (simp add: arange_def Let_def)
  then show ?thesis
    by (simp add: fl_idem fl_zero)
qed

lemma fold_enumerate_update_length:
  "length (fold (\<lambda>(k, f) tf. tf[k := g k]) (enumerate m xs) tf) = length tf"
  by (induction xs arbitrary: m tf) simp_all

lemma fold_enumerate_update_nth:
  "m + length xs \<le> length tf \<Longrightarrow> k < length tf \<Longrightarrow>
   fold (\<lambda>(k, f) tf. tf[k := g k]) (enumerate m xs) tf ! k =
     (if m \<le> k \<and> k < m + length xs then g k else tf ! k)"
proof (induction xs arbitrary: m tf)
  case Nil
  then show ?case by auto
next
  case (Cons x xs)
  from Cons.prems have "Suc m + length xs \<le> length (tf[m := g m])" "k < length (tf[m := g m])"
    by simp_all
  from Cons.IH [OF this] Cons.prems show ?case
    by (auto simp: nth_list_update)
qed

lemma sum_list_map2_upt:
  "sum_list (map2 (\<lambda>s n. h s n) xs [0..<length xs]) = (\<Sum>n<length xs. h (xs ! n) n)"
proof -
  have "map2 (\<lambda>s n. h s n) xs [0..<length xs] = map (\<lambda>n. h (xs ! n) n) [0..<length xs]"
    by (rule nth_equalityI) simp_all
  then show ?thesis
    by (simp add: sum_list_sum_nth atLeast0LessThan)
qed

lemma compute_dft_ok:
  assumes "window_duration \<noteq> 0"
  shows "compute_dft sample_rate window_duration sig =
     Inr (arange 0 (py_mul 3 sample_rate) (fl (1 / window_duration)),
          map (\<lambda>k. \<Sum>n<length sig. of_real (sig ! n) *
                 exp (- \<i> * 2 * of_real pi * of_nat k * of_nat n / of_nat (length sig)))
            [0..<length (arange 0 (py_mul 3 sample_rate) (fl (1 / window_duration)))])"
proof -
  let ?freqs = "arange 0 (py_mul 3 sample_rate) (fl (1 / window_duration))"
  let ?g = "\<lambda>k. np_sum (map2 (\<lambda>s n. of_real s *
              exp (- \<i> * 2 * of_real pi * of_nat k * of_nat n / of_nat (length sig)))
            sig [0..<length sig])"
  let ?tf = "fold (\<lambda>(k, f) tf. tf[k := ?g k]) (enumerate 0 ?freqs)
               (replicate (length ?freqs) (0 :: complex))"
  have g: "?g k = (\<Sum>n<length sig. of_real (sig ! n) *
              exp (- \<i> * 2 * of_real pi * of_nat k * of_nat n / of_nat (length sig)))" for k
    unfolding np_sum_def
    by (rule sum_list_map2_upt
          [of "\<lambda>s n. of_real s * exp (- \<i> * 2 * of_real pi * of_nat k * of_nat n / of_nat (length sig))"])
  have len: "length ?tf = length ?freqs"
    by (simp add: fold_enumerate_update_length)
  have "?tf = map ?g [0..<length ?freqs]"
  proof (rule nth_equalityI)
    show "length ?tf = length (map ?g [0..<length ?freqs])"
      using len by simp
  next
    fix k assume "k < length ?tf"
    then have k: "k < length ?freqs" using len by simp
    then have "?tf ! k = ?g k"
      by (subst fold_enumerate_update_nth) simp_all
    with k show "?tf ! k = map ?g [0..<length ?freqs] ! k"
      by simp
  qed
  then have "?tf = map (\<lambda>k. \<Sum>n<length sig. of_real (sig ! n) *
                 exp (- \<i> * 2 * of_real pi * of_nat k * of_nat n / of_nat (length sig)))
            [0..<length ?freqs]"
    by (simp only: g)
  with assms show ?thesis
    by (simp add: compute_dft_def py_div_def Let_def)
qed

lemma upt4: "[0..<4] = [0, 1, 2, 3::nat]"
  by (simp add: upt_rec)

lemma arange_0_3_1: "arange 0 3 1 = [0, 1, 2]"
proof -
  have "nat \<lceil>fl (fl (3 - 0) / 1)\<rceil> = 3"
    by (simp add: fl_3)
  then show ?thesis
    by (simp add: arange_def Let_def upt_rec fl_1 fl_2)
qed

lemma length_freqs:
  "length (arange 0 (py_mul 3 sample_rate) (fl (1 / window_duration))) =
     nat \<lceil>fl (fl (3 * sample_rate) / fl (1 / window_duration))\<rceil>"
  by (simp add: length_arange py_mul_def fl_idem)

lemma length_times:
  "length (arange 0 d (fl (1 / r))) = nat \<lceil>fl (fl d / fl (1 / r))\<rceil>"
  by (simp add: length_arange)

lemma arange_fl_stop: "arange 0 (fl a) step = arange 0 a step"
  by (simp add: arange_def fl_idem)

lemma arange_grid:
  assumes "0 < a" and "0 < b"
  shows "length (arange 0 a (fl (1 / b))) = nat \<lceil>fl (fl a / fl (1 / b))\<rceil>"
    and "a * b * (1 - 1 / 2 ^ 51) \<le> real (length (arange 0 a (fl (1 / b))))"
    and "real (length (arange 0 a (fl (1 / b)))) < a * b * (1 + 1 / 2 ^ 51) + 1"
    and "i < length (arange 0 a (fl (1 / b))) \<Longrightarrow>
           arange 0 a (fl (1 / b)) ! i = fl (real i * fl (1 / b))"
    and "i < length (arange 0 a (fl (1 / b))) \<Longrightarrow>
           \<bar>arange 0 a (fl (1 / b)) ! i - real i / b\<bar> \<le> real i / b / 2 ^ 51"
    and "i < length (arange 0 a (fl (1 / b))) \<Longrightarrow>
           arange 0 a (fl (1 / b)) ! i < a * (1 + 1 / 2 ^ 49)"
proof -
  define h where "h = fl (1 / b)"
  define q where "q = fl (fl a / h)"
  define K where "K = length (arange 0 a h)"
  from assms have ab: "0 < a * b" by simp
  have q_lo: "a * b * (1 - 1 / 2 ^ 51) \<le> q" and q_hi: "q \<le> a * b * (1 + 1 / 2 ^ 51)"
    and q_pos: "0 < q"
    using fl_quotient_bounds [OF ab] assms by (simp_all add: q_def h_def)
  have K: "K = nat \<lceil>q\<rceil>"
    by (simp add: K_def q_def h_def length_times)
  from q_pos have "0 < \<lceil>q\<rceil>" by linarith
  with K have rK: "real K = of_int \<lceil>q\<rceil>" by simp
  have K_lo: "q \<le> real K" and K_hi: "real K < q + 1"
    unfolding rK by linarith+
  show "length (arange 0 a (fl (1 / b))) = nat \<lceil>fl (fl a / fl (1 / b))\<rceil>"
    by (rule length_times)
  from q_lo K_lo show "a * b * (1 - 1 / 2 ^ 51) \<le> real (length (arange 0 a (fl (1 / b))))"
    by (simp add: K_def h_def)
  from q_hi K_hi show "real (length (arange 0 a (fl (1 / b)))) < a * b * (1 + 1 / 2 ^ 51) + 1"
    by (simp add: K_def h_def)
  have nth: "arange 0 a (fl (1 / b)) ! i = fl (real i * h)" if "i < K" for i
    using that unfolding K_def h_def by (rule nth_arange_0)
  have err: "\<bar>fl (real i * h) - real i / b\<bar> \<le> real i / b / 2 ^ 51" for i
  proof -
    define c where "c = real i / b"
    from assms(2) have c: "0 \<le> c" by (simp add: c_def)
    have "\<bar>h - 1 / b\<bar> \<le> \<bar>1 / b\<bar> / 2 ^ 53"
      unfolding h_def by (rule fl_error)
    then have "real i * \<bar>h - 1 / b\<bar> \<le> real i * (\<bar>1 / b\<bar> / 2 ^ 53)"
      by (intro mult_left_mono) simp_all
    moreover have "real i * \<bar>h - 1 / b\<bar> = \<bar>real i * (h - 1 / b)\<bar>"
      by (simp add: abs_mult)
    moreover have "real i * (h - 1 / b) = real i * h - c"
      by (simp add: c_def right_diff_distrib)
    moreover have "real i * (\<bar>1 / b\<bar> / 2 ^ 53) = c / 2 ^ 53"
      using assms(2) by (simp add: c_def)
    ultimately have B: "\<bar>real i * h - c\<bar> \<le> c / 2 ^ 53"
      by (simp only:)
    have A: "\<bar>fl (real i * h) - real i * h\<bar> \<le> \<bar>real i * h\<bar> / 2 ^ 53"
      by (rule fl_error)
    from A B have "\<bar>fl (real i * h) - c\<bar> \<le> c / 2 ^ 51"
      by (rule two_roundings)
    then show ?thesis by (simp only: c_def)
  qed
  show "arange 0 a (fl (1 / b)) ! i = fl (real i * fl (1 / b))"
    if "i < length (arange 0 a (fl (1 / b)))"
    using that by (rule nth_arange_0)
  show "\<bar>arange 0 a (fl (1 / b)) ! i - real i / b\<bar> \<le> real i / b / 2 ^ 51"
    if "i < length (arange 0 a (fl (1 / b)))"
  proof -
    from that have "i < K" by (simp add: K_def h_def)
    then show ?thesis using err [of i] by (simp only: nth)
  qed
  show "arange 0 a (fl (1 / b)) ! i < a * (1 + 1 / 2 ^ 49)"
    if "i < length (arange 0 a (fl (1 / b)))"
  proof -
    define c where "c = real i / b"
    from that have iK: "i < K" by (simp add: K_def h_def)
    then have "real i + 1 \<le> real K" by linarith
    with K_hi have "real i < q" by linarith
    with q_hi have "real i < a * (1 + 1 / 2 ^ 51) * b"
      by (simp add: mult_ac)
    with assms(2) have c1: "c < a * (1 + 1 / 2 ^ 51)"
      by (simp add: c_def pos_divide_less_eq)
    from err [of i] have "\<bar>fl (real i * h) - c\<bar> \<le> c / 2 ^ 51"
      by (simp only: c_def)
    from this c1 assms(1) have "fl (real i * h) < a * (1 + 1 / 2 ^ 49)"
      by (rule grid_below)
    with iK show ?thesis by (simp only: nth)
  qed
qed

lemma quotient_150_third: "fl (fl 150 / fl (1 / 3)) = 450"
  unfolding fl_150 fl_third
  using fl_eval [of "150 / (6004799503160661 / 2 ^ 54)" 44 "450 * 2 ^ 44"] by simp

lemma quotient_3_50th: "fl (fl 3 / fl (1 / 50)) = 150"
  unfolding fl_3 fl_50th
  using fl_eval [of "3 / (5764607523034235 / 2 ^ 58)" 45 "150 * 2 ^ 45"] by simp

lemma quotient_9_49th: "fl (fl 9 / fl (1 / 49)) = 7758154045587457 / 2 ^ 44"
  unfolding fl_9 fl_49th
  using fl_eval [of "9 / (5882252574524729 / 2 ^ 58)" 44 7758154045587457] by simp

lemma quotient_5_49th: "fl (fl 5 / fl (1 / 49)) = 8620171161763841 / 2 ^ 45"
  unfolding fl_5 fl_49th
  using fl_eval [of "5 / (5882252574524729 / 2 ^ 58)" 45 8620171161763841] by simp

lemma product_441_49th: "fl (441 * fl (1 / 49)) = 9"
  unfolding fl_49th
  using fl_eval [of "441 * (5882252574524729 / 2 ^ 58)" 49 "9 * 2 ^ 49"] by simp

lemma product_245_49th: "fl (245 * fl (1 / 49)) = 5"
  unfolding fl_49th
  using fl_eval [of "245 * (5882252574524729 / 2 ^ 58)" 50 "5 * 2 ^ 50"] by simp

lemma ceiling_441: "\<lceil>7758154045587457 / 2 ^ 44 :: real\<rceil> = 442"
  by (rule ceiling_unique) simp_all

lemma ceiling_245: "\<lceil>8620171161763841 / 2 ^ 45 :: real\<rceil> = 246"
  by (rule ceiling_unique) simp_all

lemma axis_default_below: "k < 450 \<Longrightarrow> fl (real k * fl (1 / 3)) < 150"
  by (rule grid_bound_below [of k 450]) (simp_all add: fl_third)

lemma times_default_below: "i < 150 \<Longrightarrow> fl (real i * fl (1 / 50)) < 3"
  by (rule grid_bound_below [of i 150]) (simp_all add: fl_50th)

lemma arange_0_0_1: "arange 0 0 1 = []"
  by (simp add: arange_def fl_zero)

lemma arange_0_3_2: "arange 0 3 2 = [0, 2]"
proof -
  have "nat \<lceil>fl (fl (3 - 0) / 2)\<rceil> = 2"
    by (simp add: fl_3 fl_3_halves)
  then show ?thesis
    by (simp add: arange_def Let_def upt_rec fl_2)
qed

lemma axis_3_49:
  "length (arange 0 (py_mul 3 3) (fl (1 / 49))) = 442"
  "arange 0 (py_mul 3 3) (fl (1 / 49)) ! 441 = 9"
proof -
  show n: "length (arange 0 (py_mul 3 3) (fl (1 / 49))) = 442"
    by (simp add: length_freqs quotient_9_49th ceiling_441)
  then have "441 < length (arange 0 (py_mul 3 3) (fl (1 / 49)))" by simp
  then have "arange 0 (py_mul 3 3) (fl (1 / 49)) ! 441 = fl (real 441 * fl (1 / 49))"
    by (rule nth_arange_0)
  then show "arange 0 (py_mul 3 3) (fl (1 / 49)) ! 441 = 9"
    by (simp add: product_441_49th)
qed

lemma times_49_5:
  "length (arange 0 5 (fl (1 / 49))) = 246"
  "arange 0 5 (fl (1 / 49)) ! 245 = 5"
proof -
  show n: "length (arange 0 5 (fl (1 / 49))) = 246"
    by (simp add: length_times quotient_5_49th ceiling_245)
  then have "245 < length (arange 0 5 (fl (1 / 49)))" by simp
  then have "arange 0 5 (fl (1 / 49)) ! 245 = fl (real 245 * fl (1 / 49))"
    by (rule nth_arange_0)
  then show "arange 0 5 (fl (1 / 49)) ! 245 = 5"
    by (simp add: product_245_49th)
qed

subsection \<open>The direct summation\<close>



subsection \<open>The frequency axis\<close>

text \<open>
  Claim C2, as amended. For a positive sample rate and a positive window duration the
  frequency axis has \<open>K\<close> points, \<open>K\<close> being the ceiling of the double quotient of
  \<open>3 * sample_rate\<close> by the double \<open>1 / window_duration\<close>; so \<open>K\<close> lies between
  \<open>3 * sample_rate * window_duration * (1 - 2^-51)\<close> and
  \<open>3 * sample_rate * window_duration * (1 + 2^-51) + 1\<close>. The \<open>k\<close>-th point is the
  double product of \<open>k\<close> and the double \<open>1 / window_duration\<close>, within a relative
  error of \<open>2^-51\<close> of \<open>k / window_duration\<close> and below
  \<open>3 * sample_rate * (1 + 2^-49)\<close>. For a sample rate of 50 and a window of 3 there
  are 450 points, all strictly below \<open>3 * sample_rate\<close>.
\<close>

theorem frequency_axis:
  assumes "0 < sample_rate" and "0 < window_duration"
  shows "\<exists>freqs tf. compute_dft sample_rate window_duration sig = Inr (freqs, tf) \<and>
           length freqs = nat \<lceil>fl (fl (3 * sample_rate) / fl (1 / window_duration))\<rceil> \<and>
           3 * sample_rate * window_duration * (1 - 1 / 2 ^ 51) \<le> real (length freqs) \<and>
           real (length freqs) < 3 * sample_rate * window_duration * (1 + 1 / 2 ^ 51) + 1 \<and>
           (\<forall>k<length freqs.
              freqs ! k = fl (real k * fl (1 / window_duration)) \<and>
              \<bar>freqs ! k - real k / window_duration\<bar> \<le> real k / window_duration / 2 ^ 51 \<and>
              freqs ! k < 3 * sample_rate * (1 + 1 / 2 ^ 49)) \<and>
           (sample_rate = 50 \<and> window_duration = 3 \<longrightarrow>
              length freqs = 450 \<and> (\<forall>k<length freqs. freqs ! k < 3 * sample_rate))"
proof -
  let ?freqs = "arange 0 (py_mul 3 sample_rate) (fl (1 / window_duration))"
  let ?tf = "map (\<lambda>k. \<Sum>n<length sig. of_real (sig ! n) *
                 exp (- \<i> * 2 * of_real pi * of_nat k * of_nat n / of_nat (length sig)))
            [0..<length ?freqs]"
  have f: "?freqs = arange 0 (3 * sample_rate) (fl (1 / window_duration))"
    by (simp add: py_mul_def arange_fl_stop)
  from assms have a: "0 < 3 * sample_rate" by simp
  note g = arange_grid [OF a assms(2), folded f]
  have r: "compute_dft sample_rate window_duration sig = Inr (?freqs, ?tf)"
    using assms(2) by (simp add: compute_dft_ok)
  have len: "length ?freqs = nat \<lceil>fl (fl (3 * sample_rate) / fl (1 / window_duration))\<rceil>"
    by (rule g(1))
  have pts: "\<forall>k<length ?freqs.
              ?freqs ! k = fl (real k * fl (1 / window_duration)) \<and>
              \<bar>?freqs ! k - real k / window_duration\<bar> \<le> real k / window_duration / 2 ^ 51 \<and>
              ?freqs ! k < 3 * sample_rate * (1 + 1 / 2 ^ 49)"
    using g(4,5,6) by blast
  have dflt: "length ?freqs = 450 \<and> (\<forall>k<length ?freqs. ?freqs ! k < 3 * sample_rate)"
    if "sample_rate = 50 \<and> window_duration = 3"
  proof -
    from that len have n: "length ?freqs = 450"
      by (simp add: quotient_150_third)
    have "?freqs ! k < 3 * sample_rate" if "k < length ?freqs" for k
    proof -
      from that n have "k < 450" by simp
      then have "fl (real k * fl (1 / 3)) < 150" by (rule axis_default_below)
      with g(4) [OF that] \<open>sample_rate = 50 \<and> window_duration = 3\<close> show ?thesis
        by simp
    qed
    with n show ?thesis by blast
  qed
  from r len g(2) g(3) pts dflt show ?thesis
    by blast
qed

theorem frequency_axis_witness:
  "(0::real) < 50 \<and> (0::real) < 3 \<and>
   (\<exists>freqs tf. compute_dft 50 3 [1] = Inr (freqs, tf) \<and> length freqs = 450 \<and>
      freqs ! 449 < 3 * 50)"
proof -
  from frequency_axis [of 50 3 "[1]"]
  obtain freqs tf where r: "compute_dft 50 3 [1] = Inr (freqs, tf)"
    and d: "(50::real) = 50 \<and> (3::real) = 3 \<longrightarrow>
              length freqs = 450 \<and> (\<forall>k<length freqs. freqs ! k < 3 * 50)"
    by auto
  from d have n: "length freqs = 450" and b: "\<forall>k<length freqs. freqs ! k < 3 * 50"
    by simp_all
  from n have "(449::nat) < length freqs" by simp
  with b have "freqs ! 449 < 3 * 50" by blast
  with r n show ?thesis by simp
qed

text \<open>
  The claim as first stated fails twice. Where the product is not an integer: a sample
  rate of 1 and a window of 1/2 give the two points 0 and 2, and \<open>3 * 1 * (1 / 2)\<close> is
  3/2. And by rounding: a sample rate of 3 and a window of 49 give the double quotient
  \<open>441 + 2^-44\<close>, hence 442 points and not 441, the last of them 9, which is
  \<open>3 * sample_rate\<close> and not below it.
\<close>

theorem frequency_axis_counterexample:
  "compute_dft 1 (1 / 2) [1] = Inr ([0, 2], [1, 1]) \<and>
   real (length [0, 2 :: real]) \<noteq> 3 * 1 * (1 / 2) \<and>
   (case compute_dft 3 49 [1] of
      Inl e \<Rightarrow> False
    | Inr (freqs, tf) \<Rightarrow>
        length freqs = 442 \<and> real (length freqs) \<noteq> 3 * 3 * 49 \<and>
        freqs ! 441 = 9 \<and> \<not> freqs ! 441 < 3 * 3)"
proof -
  have "compute_dft 1 (1 / 2) [1] = Inr ([0, 2], [1, 1])"
    by (simp add: compute_dft_ok py_mul_def fl_2 fl_3 arange_0_3_2 upt_rec lessThan_Suc)
  moreover have "case compute_dft 3 49 [1] of
      Inl e \<Rightarrow> False
    | Inr (freqs, tf) \<Rightarrow>
        length freqs = 442 \<and> real (length freqs) \<noteq> 3 * 3 * 49 \<and>
        freqs ! 441 = 9 \<and> \<not> freqs ! 441 < 3 * 3"
    by (simp add: compute_dft_ok axis_3_49 del: upt_Suc)
  ultimately show ?thesis
    by simp
qed

subsection \<open>What the engine raises\<close>

text \<open>
  Claim C3, as amended. \<open>compute_dft\<close> validates nothing and knows no invalid-input
  error. It raises \<open>ZeroDivisionError\<close> when the window duration is zero, and returns
  for every other input: with an empty axis and an empty spectrum when
  \<open>sample_rate * window_duration \<le> 0\<close>, and with a non-empty axis for every valid
  input.
\<close>

theorem compute_dft_raises:
  "(window_duration = 0 \<longrightarrow> compute_dft sample_rate window_duration sig = Inl ZeroDivisionError) \<and>
   (window_duration \<noteq> 0 \<longrightarrow>
      (\<exists>freqs tf. compute_dft sample_rate window_duration sig = Inr (freqs, tf))) \<and>
   (window_duration \<noteq> 0 \<and> sample_rate * window_duration \<le> 0 \<longrightarrow>
      compute_dft sample_rate window_duration sig = Inr ([], [])) \<and>
   (0 < sample_rate \<and> 0 < window_duration \<and> sig \<noteq> [] \<longrightarrow>
      (\<exists>freqs tf. compute_dft sample_rate window_duration sig = Inr (freqs, tf) \<and> freqs \<noteq> []))"
proof (intro conjI impI)
  assume "window_duration = 0"
  then show "compute_dft sample_rate window_duration sig = Inl ZeroDivisionError"
    by (simp add: compute_dft_def py_div_def)
next
  assume "window_duration \<noteq> 0"
  then show "\<exists>freqs tf. compute_dft sample_rate window_duration sig = Inr (freqs, tf)"
    by (simp add: compute_dft_ok)
next
  assume a: "window_duration \<noteq> 0 \<and> sample_rate * window_duration \<le> 0"
  then have "3 * sample_rate * window_duration \<le> 0"
    by (simp add: mult.assoc)
  with a have "fl (fl (3 * sample_rate) / fl (1 / window_duration)) \<le> 0"
    by (intro fl_quotient_nonpos) simp_all
  then have "\<lceil>fl (fl (3 * sample_rate) / fl (1 / window_duration))\<rceil> \<le> 0"
    by (simp add: ceiling_le_iff)
  then have "length (arange 0 (py_mul 3 sample_rate) (fl (1 / window_duration))) = 0"
    by (simp add: length_freqs)
  then have "arange 0 (py_mul 3 sample_rate) (fl (1 / window_duration)) = []"
    by (simp only: length_0_conv)
  with a show "compute_dft sample_rate window_duration sig = Inr ([], [])"
    by (simp add: compute_dft_ok)
next
  assume a: "0 < sample_rate \<and> 0 < window_duration \<and> sig \<noteq> []"
  then have "0 < 3 * sample_rate * window_duration" by simp
  then have "0 < fl (fl (3 * sample_rate) / fl (1 / window_duration))"
    by (rule fl_quotient_bounds(3))
  then have "0 < \<lceil>fl (fl (3 * sample_rate) / fl (1 / window_duration))\<rceil>"
    by linarith
  then have "length (arange 0 (py_mul 3 sample_rate) (fl (1 / window_duration))) \<noteq> 0"
    by (simp add: length_freqs)
  then have "arange 0 (py_mul 3 sample_rate) (fl (1 / window_duration)) \<noteq> []"
    by (simp only: length_0_conv not_False_eq_True)
  with a show "\<exists>freqs tf. compute_dft sample_rate window_duration sig = Inr (freqs, tf) \<and> freqs \<noteq> []"
    by (simp add: compute_dft_ok)
qed

theorem compute_dft_raises_witness:
  "compute_dft 1 0 [1] = Inl ZeroDivisionError \<and>
   (\<exists>freqs tf. compute_dft 1 1 [1] = Inr (freqs, tf)) \<and>
   compute_dft (-1) 1 [1] = Inr ([], []) \<and>
   (\<exists>freqs tf. compute_dft 1 1 [1] = Inr (freqs, tf) \<and> freqs \<noteq> [])"
  using compute_dft_raises [of 0 1 "[1]"] compute_dft_raises [of 1 1 "[1]"]
    compute_dft_raises [of 1 "-1" "[1]"]
  by simp

text \<open>
  The claim as first stated fails: a zero sample rate and an empty signal are both
  accepted, and a zero window duration is the division by zero itself.
\<close>

theorem compute_dft_invalid_input_counterexample:
  "compute_dft 0 1 [1] = Inr ([], []) \<and>
   compute_dft 1 1 [] = Inr ([0, 1, 2], [0, 0, 0]) \<and>
   compute_dft 1 0 [1] = Inl ZeroDivisionError"
  by (simp add: compute_dft_ok py_mul_def fl_1 fl_3 fl_zero arange_0_3_1 arange_0_0_1
        compute_dft_def [of 1 0] py_div_def)

section \<open>Properties of the controller\<close>

lemma gen_sig_ok:
  "fs s \<noteq> 0 \<Longrightarrow>
   gen_sig s = Inr (arange 0 (duree s) (fl (1 / fs s)),
                    map (\<lambda>x. sin (2 * pi * freq s * x)) (arange 0 (duree s) (fl (1 / fs s))))"
  by (simp add: gen_sig_def py_div_def Let_def)

lemma gen_sig_raises: "fs s = 0 \<Longrightarrow> gen_sig s = Inl ZeroDivisionError"
  by (simp add: gen_sig_def py_div_def Let_def)

lemma fold_axvline_pairs:
  "fold (\<lambda>idx s.
          s\<lparr>fd := fd s @
             [Axvline ((of_int idx - 1) * fs s + freq s) ''b'' (Some d) w,
              Axvline (- freq s + (of_int idx + 1) * fs s) ''r'' (Some d) w]\<rparr>) idxs s =
   s\<lparr>fd := fd s @ concat (map (\<lambda>idx.
             [Axvline ((of_int idx - 1) * fs s + freq s) ''b'' (Some d) w,
              Axvline (- freq s + (of_int idx + 1) * fs s) ''r'' (Some d) w]) idxs)\<rparr>"
  by (induction idxs arbitrary: s) simp_all

lemma sig_fits_on_axis:
  assumes "r \<noteq> 0"
  shows "length (arange 0 d (fl (1 / r))) \<le> length (arange 0 (py_mul 3 r) (fl (1 / d)))"
proof (cases "0 < d * r")
  case True
  then have P: "0 < \<bar>d\<bar> * \<bar>r\<bar>"
    by (auto simp: zero_less_mult_iff)
  from True have T3: "0 < 3 * r * d"
    by (simp add: mult.commute)
  have "fl (fl d / fl (1 / r)) \<le> \<bar>d\<bar> * \<bar>r\<bar> * (1 + 1 / 2 ^ 51)"
    using True by (rule fl_quotient_bounds(2))
  also have "\<dots> \<le> \<bar>d\<bar> * \<bar>r\<bar> * (3 * (1 - 1 / 2 ^ 51))"
    using P by (intro mult_left_mono) simp_all
  also have "\<dots> = \<bar>3 * r\<bar> * \<bar>d\<bar> * (1 - 1 / 2 ^ 51)"
    by (simp add: abs_mult)
  also have "\<dots> \<le> fl (fl (3 * r) / fl (1 / d))"
    using T3 by (rule fl_quotient_bounds(1))
  finally have "\<lceil>fl (fl d / fl (1 / r))\<rceil> \<le> \<lceil>fl (fl (3 * r) / fl (1 / d))\<rceil>"
    by (rule ceiling_mono)
  then have "nat \<lceil>fl (fl d / fl (1 / r))\<rceil> \<le> nat \<lceil>fl (fl (3 * r) / fl (1 / d))\<rceil>"
    by (rule nat_mono)
  then show ?thesis
    by (simp add: length_times py_mul_def fl_idem)
next
  case False
  then have "d * r \<le> 0" by simp
  then have "fl (fl d / fl (1 / r)) \<le> 0"
    using assms by (rule fl_quotient_nonpos)
  then have "\<lceil>fl (fl d / fl (1 / r))\<rceil> \<le> 0"
    by (simp add: ceiling_le_iff)
  then show ?thesis
    by (simp add: length_times)
qed

lemma init_time_domain_ok:
  assumes "f_max s \<noteq> 0" and "fs s \<noteq> 0"
  shows "init_time_domain s =
     (None, s\<lparr>td := td s @
        [Plot (arange 0 (duree s) (fl (1 / py_mul 10 (f_max s))))
           (map (\<lambda>x. sin (2 * pi * freq s * x)) (arange 0 (duree s) (fl (1 / py_mul 10 (f_max s))))) None,
         Plot (arange 0 (duree s) (fl (1 / fs s)))
           (map (\<lambda>x. sin (2 * pi * freq s * x)) (arange 0 (duree s) (fl (1 / fs s)))) (Some ''r+:''),
         SetTitle ''Domaine temporel'', SetXlabel ''Temps [s]'']\<rparr>)"
  using assms by (simp add: init_time_domain_def py_div_def py_mul_def fl_eq_zero_iff gen_sig_ok Let_def)

lemma init_time_domain_frame: "\<exists>arts. snd (init_time_domain s) = s\<lparr>td := arts\<rparr>"
proof (cases "f_max s \<noteq> 0 \<and> fs s \<noteq> 0")
  case True
  then show ?thesis
    by (simp add: init_time_domain_ok) (rule exI, rule refl)
next
  case False
  then have "snd (init_time_domain s) = s"
    by (auto simp: init_time_domain_def py_div_def py_mul_def fl_zero fl_eq_zero_iff gen_sig_raises)
  then have "snd (init_time_domain s) = s\<lparr>td := td s\<rparr>"
    by simp
  then show ?thesis ..
qed

lemma init_freq_domain_ok:
  assumes "fs s \<noteq> 0" and "duree s \<noteq> 0"
  shows "\<exists>freqs tf (sig :: real list). init_freq_domain s =
     (None, s\<lparr>fd := fd s @ [Plot freqs (map cmod tf) None] @
        concat (map (\<lambda>idx.
             [Axvline ((of_int idx - 1) * fs s + freq s) ''b'' (Some (1, 1)) 2,
              Axvline (- freq s + (of_int idx + 1) * fs s) ''r'' (Some (1, 1)) 2]) (map int [0..<4])) @
        [Axvline (freq s) ''b'' None 2] @
        [FillBetween (map (\<lambda>i. freqs ! i) [0..<length sig])
                     (map (\<lambda>i. cmod (tf ! i)) [0..<length sig]) 0,
         SetXlim 0 (py_mul 3 (fs s)),
         SetTitle (''Domaine fr'' @ [CHR 0xE9] @ ''quenciel''),
         SetXlabel (''Fr'' @ [CHR 0xE9] @ ''quence [Hz]''),
         SetYlabel ''Amplitude'']\<rparr>)"
proof -
  let ?sig = "map (\<lambda>x. sin (2 * pi * freq s * x)) (arange 0 (duree s) (fl (1 / fs s)))"
  let ?freqs = "arange 0 (py_mul 3 (fs s)) (fl (1 / duree s))"
  let ?tf = "map (\<lambda>k. \<Sum>n<length ?sig. of_real (?sig ! n) *
                 exp (- \<i> * 2 * of_real pi * of_nat k * of_nat n / of_nat (length ?sig)))
               [0..<length ?freqs]"
  have fits: "\<not> (\<exists>i \<in> set [0..<length ?sig]. length ?freqs \<le> i)"
  proof
    assume "\<exists>i \<in> set [0..<length ?sig]. length ?freqs \<le> i"
    then obtain i where "i < length (arange 0 (duree s) (fl (1 / fs s)))"
      and "length ?freqs \<le> i"
      by auto
    with sig_fits_on_axis [OF assms(1), of "duree s"] show False
      by linarith
  qed
  have g: "gen_sig s = Inr (arange 0 (duree s) (fl (1 / fs s)), ?sig)"
    using assms(1) by (rule gen_sig_ok)
  have c: "compute_dft (fs s) (duree s) ?sig = Inr (?freqs, ?tf)"
    using assms(2) by (rule compute_dft_ok)
  have eq: "init_freq_domain s =
     (None, s\<lparr>fd := fd s @ [Plot ?freqs (map cmod ?tf) None] @
        concat (map (\<lambda>idx.
             [Axvline ((of_int idx - 1) * fs s + freq s) ''b'' (Some (1, 1)) 2,
              Axvline (- freq s + (of_int idx + 1) * fs s) ''r'' (Some (1, 1)) 2]) (map int [0..<4])) @
        [Axvline (freq s) ''b'' None 2] @
        [FillBetween (map (\<lambda>i. ?freqs ! i) [0..<length ?sig])
                     (map (\<lambda>i. cmod (?tf ! i)) [0..<length ?sig]) 0,
         SetXlim 0 (py_mul 3 (fs s)),
         SetTitle (''Domaine fr'' @ [CHR 0xE9] @ ''quenciel''),
         SetXlabel (''Fr'' @ [CHR 0xE9] @ ''quence [Hz]''),
         SetYlabel ''Amplitude'']\<rparr>)"
    apply (simp only: init_freq_domain_def g c sum.case prod.case Let_def fold_axvline_pairs)
    apply (simp only: fits if_False)
    apply (simp del: upt_Suc)
    done
  show ?thesis
    by (rule exI [of _ ?freqs], rule exI [of _ ?tf], rule exI [of _ ?sig]) (rule eq)
qed

lemma init_freq_domain_frame: "\<exists>arts. snd (init_freq_domain s) = s\<lparr>fd := arts\<rparr>"
proof (cases "fs s \<noteq> 0 \<and> duree s \<noteq> 0")
  case True
  then obtain freqs tf and sig :: "real list" and arts where
    "init_freq_domain s = (None, s\<lparr>fd := arts\<rparr>)"
    using init_freq_domain_ok [of s] by blast
  then have "snd (init_freq_domain s) = s\<lparr>fd := arts\<rparr>"
    by simp
  then show ?thesis ..
next
  case False
  have "snd (init_freq_domain s) = s"
  proof (cases "fs s = 0")
    case True
    then show ?thesis
      by (simp add: init_freq_domain_def gen_sig_raises)
  next
    case nz: False
    with False have "duree s = 0" by simp
    then have "compute_dft (fs s) (duree s) sig = Inl ZeroDivisionError" for sig
      by (simp add: compute_dft_def py_div_def)
    with nz show ?thesis
      by (simp add: init_freq_domain_def gen_sig_ok)
  qed
  then have "snd (init_freq_domain s) = s\<lparr>fd := fd s\<rparr>"
    by simp
  then show ?thesis ..
qed

lemma then_do_frame:
  "\<exists>a b. snd (then_do (init_time_domain s) init_freq_domain) = s\<lparr>td := a, fd := b\<rparr>"
proof -
  obtain a where a: "snd (init_time_domain s) = s\<lparr>td := a\<rparr>"
    using init_time_domain_frame by blast
  show ?thesis
  proof (cases "fst (init_time_domain s)")
    case None
    obtain b where "snd (init_freq_domain (s\<lparr>td := a\<rparr>)) = s\<lparr>td := a, fd := b\<rparr>"
      using init_freq_domain_frame [of "s\<lparr>td := a\<rparr>"] by auto
    with None a have "snd (then_do (init_time_domain s) init_freq_domain) = s\<lparr>td := a, fd := b\<rparr>"
      by (cases "init_time_domain s") (auto simp: then_do_def)
    then show ?thesis by blast
  next
    case (Some e)
    with a have "snd (then_do (init_time_domain s) init_freq_domain) = s\<lparr>td := a, fd := fd s\<rparr>"
      by (cases "init_time_domain s") (auto simp: then_do_def)
    then show ?thesis by blast
  qed
qed

lemma then_do_returns:
  assumes "fs s \<noteq> 0" and "duree s \<noteq> 0" and "f_max s \<noteq> 0"
  shows "fst (then_do (init_time_domain s) init_freq_domain) = None"
proof -
  obtain a where a: "init_time_domain s = (None, s\<lparr>td := a\<rparr>)"
    using assms by (simp add: init_time_domain_ok)
  obtain freqs tf and sig :: "real list" and b where
    "init_freq_domain (s\<lparr>td := a\<rparr>) = (None, s\<lparr>td := a, fd := b\<rparr>)"
    using init_freq_domain_ok [of "s\<lparr>td := a\<rparr>"] assms by auto
  with a show ?thesis
    by (simp add: then_do_def)
qed

lemma update_frame: "\<exists>a b. snd (update f s) = s\<lparr>freq := f, td := a, fd := b\<rparr>"
  using then_do_frame [of "s\<lparr>freq := f, td := [], fd := []\<rparr>"]
  by (simp add: update_def)

lemma update_returns:
  assumes "fs s \<noteq> 0" and "duree s \<noteq> 0" and "f_max s \<noteq> 0"
  shows "fst (update f s) = None"
  using assms then_do_returns [of "s\<lparr>freq := f, td := [], fd := []\<rparr>"]
  by (simp add: update_def)

lemma reachable_config:
  "reachable s \<Longrightarrow> fs s = 50 \<and> duree s = 3 \<and> f_min s = 1 \<and> f_max s = 150"
proof (induction rule: reachable.induct)
  case constructed
  let ?s = "init_sliders \<lparr>fs = 50, freq = 1, duree = 3, f_min = 1, f_max = 150,
                td = [], fd = [], freq_slider = None\<rparr>"
  obtain a b where "snd Aliasing_Window = ?s\<lparr>td := a, fd := b\<rparr>"
    using then_do_frame [of ?s] by (auto simp: Aliasing_Window_def Let_def)
  then show ?case
    by (simp add: init_sliders_def)
next
  case (updated s f)
  obtain a b where "snd (update f s) = s\<lparr>freq := f, td := a, fd := b\<rparr>"
    using update_frame by blast
  with updated.IH show ?case
    by simp
qed

lemma int_0_3: "{0..3::int} = {0, 1, 2, 3}"
  by auto

subsection \<open>The sampled signal\<close>

text \<open>
  Claim C4, as amended. For a positive sample rate and a positive window duration,
  \<open>gen_sig\<close> returns \<open>n\<close> samples in order, \<open>n\<close> being the ceiling of the double
  quotient of \<open>duree\<close> by the double \<open>1 / fs\<close>; so \<open>n\<close> lies between
  \<open>duree * fs * (1 - 2^-51)\<close> and \<open>duree * fs * (1 + 2^-51) + 1\<close>. The \<open>i\<close>-th
  sample time is the double product of \<open>i\<close> and the double \<open>1 / fs\<close>, within a
  relative error of \<open>2^-51\<close> of \<open>i / fs\<close> and below \<open>duree * (1 + 2^-49)\<close>, and the
  amplitude at each time \<open>t\<close> is \<open>sin (2 * pi * freq * t)\<close>. For a sample rate of 50
  and a window of 3 there are 150 samples, all at times strictly below the window
  duration.
\<close>

theorem gen_sig_samples:
  assumes "0 < fs s" and "0 < duree s"
  shows "\<exists>t sig. gen_sig s = Inr (t, sig) \<and> length sig = length t \<and>
           length t = nat \<lceil>fl (fl (duree s) / fl (1 / fs s))\<rceil> \<and>
           duree s * fs s * (1 - 1 / 2 ^ 51) \<le> real (length t) \<and>
           real (length t) < duree s * fs s * (1 + 1 / 2 ^ 51) + 1 \<and>
           (\<forall>i<length t.
              t ! i = fl (real i * fl (1 / fs s)) \<and>
              \<bar>t ! i - real i / fs s\<bar> \<le> real i / fs s / 2 ^ 51 \<and>
              t ! i < duree s * (1 + 1 / 2 ^ 49) \<and>
              sig ! i = sin (2 * pi * freq s * (t ! i))) \<and>
           (fs s = 50 \<and> duree s = 3 \<longrightarrow> length t = 150 \<and> (\<forall>i<length t. t ! i < duree s))"
proof -
  let ?t = "arange 0 (duree s) (fl (1 / fs s))"
  let ?sig = "map (\<lambda>x. sin (2 * pi * freq s * x)) ?t"
  note g = arange_grid [OF assms(2) assms(1)]
  from assms(1) have r: "gen_sig s = Inr (?t, ?sig)"
    by (simp add: gen_sig_ok)
  have len: "length ?sig = length ?t"
    by simp
  have pts: "\<forall>i<length ?t.
              ?t ! i = fl (real i * fl (1 / fs s)) \<and>
              \<bar>?t ! i - real i / fs s\<bar> \<le> real i / fs s / 2 ^ 51 \<and>
              ?t ! i < duree s * (1 + 1 / 2 ^ 49) \<and>
              ?sig ! i = sin (2 * pi * freq s * (?t ! i))"
    using g(4,5,6) by simp
  have dflt: "length ?t = 150 \<and> (\<forall>i<length ?t. ?t ! i < duree s)"
    if d: "fs s = 50 \<and> duree s = 3"
  proof -
    from d g(1) have n: "length ?t = 150"
      by (simp add: quotient_3_50th)
    have "?t ! i < duree s" if "i < length ?t" for i
    proof -
      from that n have "i < 150" by simp
      then have "fl (real i * fl (1 / 50)) < 3" by (rule times_default_below)
      with g(4) [OF that] d show ?thesis
        by simp
    qed
    with n show ?thesis by blast
  qed
  from r len g(1) g(2) g(3) pts dflt show ?thesis
    by blast
qed

theorem gen_sig_samples_witness:
  "(0::real) < fs \<lparr>fs = 50, freq = 1, duree = 3, f_min = 1, f_max = 150, td = [], fd = [],
                    freq_slider = None\<rparr> \<and>
   (0::real) < duree \<lparr>fs = 50, freq = 1, duree = 3, f_min = 1, f_max = 150, td = [], fd = [],
                    freq_slider = None\<rparr> \<and>
   (\<exists>t sig. gen_sig \<lparr>fs = 50, freq = 1, duree = 3, f_min = 1, f_max = 150, td = [], fd = [],
                    freq_slider = None\<rparr> = Inr (t, sig) \<and>
      length t = 150 \<and> length sig = 150 \<and> t ! 149 < 3 \<and>
      sig ! 149 = sin (2 * pi * 1 * (t ! 149)))"
proof -
  let ?s = "\<lparr>fs = 50, freq = 1, duree = 3, f_min = 1, f_max = 150, td = [], fd = [],
             freq_slider = None\<rparr>"
  have p: "0 < fs ?s" "0 < duree ?s"
    by simp_all
  from gen_sig_samples [OF p]
  obtain t sig where r: "gen_sig ?s = Inr (t, sig)" and l: "length sig = length t"
    and x: "\<forall>i<length t.
              t ! i = fl (real i * fl (1 / fs ?s)) \<and>
              \<bar>t ! i - real i / fs ?s\<bar> \<le> real i / fs ?s / 2 ^ 51 \<and>
              t ! i < duree ?s * (1 + 1 / 2 ^ 49) \<and>
              sig ! i = sin (2 * pi * freq ?s * (t ! i))"
    and d: "fs ?s = 50 \<and> duree ?s = 3 \<longrightarrow> length t = 150 \<and> (\<forall>i<length t. t ! i < duree ?s)"
    by blast
  from d have n: "length t = 150" and b: "\<forall>i<length t. t ! i < duree ?s"
    by simp_all
  from n have i: "(149::nat) < length t" by simp
  with b have "t ! 149 < duree ?s" by blast
  moreover from x i have "sig ! 149 = sin (2 * pi * freq ?s * (t ! 149))" by blast
  ultimately show ?thesis using r l n by simp
qed

text \<open>
  The claim as first stated fails by rounding: a sample rate of 49 and a window of 5
  give the double quotient \<open>245 + 2^-45\<close>, hence 246 samples, the last of them at time
  5, which is the window duration and not below it.
\<close>

theorem gen_sig_samples_counterexample:
  "(case gen_sig \<lparr>fs = 49, freq = 1, duree = 5, f_min = 1, f_max = 150, td = [], fd = [],
                   freq_slider = None\<rparr> of
      Inl e \<Rightarrow> False
    | Inr (t, sig) \<Rightarrow> length t = 246 \<and> t ! 245 = 5 \<and> \<not> t ! 245 < 5)"
  by (simp add: gen_sig_ok times_49_5)

text \<open>
  Claim C9. The generated signal is a function of the sample rate, the window duration
  and the signal frequency alone: two controller objects that agree on these three
  fields generate the same time points and the same amplitudes (or raise the same
  error), whatever their other fields and plots hold.
\<close>

theorem gen_sig_deterministic:
  assumes "fs s = fs s'" and "duree s = duree s'" and "freq s = freq s'"
  shows "gen_sig s = gen_sig s'"
  using assms by (simp add: gen_sig_def split: sum.splits)

theorem gen_sig_deterministic_witness:
  "gen_sig \<lparr>fs = 50, freq = 7, duree = 3, f_min = 1, f_max = 150, td = [], fd = [],
             freq_slider = None\<rparr> =
   gen_sig \<lparr>fs = 50, freq = 7, duree = 3, f_min = 2, f_max = 99, td = [SetTitle ''x''],
             fd = [SetXlim 0 1], freq_slider = None\<rparr>"
  by (rule gen_sig_deterministic) simp_all

subsection \<open>A signal of frequency zero\<close>

text \<open>
  Claim C8. With a signal frequency of 0 every sample is \<open>sin 0 = 0\<close>, so every bin
  of the spectrum of the generated signal has magnitude exactly 0: no bin away from
  frequency 0 carries any magnitude (nor does the bin at frequency 0 itself).
\<close>

theorem zero_frequency_spectrum:
  assumes "0 < fs s" and "0 < duree s" and "freq s = 0"
  shows "\<exists>t sig freqs tf. gen_sig s = Inr (t, sig) \<and>
           compute_dft (fs s) (duree s) sig = Inr (freqs, tf) \<and> length tf = length freqs \<and>
           (\<forall>k<length tf. cmod (tf ! k) = 0)"
  using assms by (simp add: gen_sig_ok compute_dft_ok)

theorem zero_frequency_spectrum_witness:
  "0 < fs \<lparr>fs = 1, freq = 0, duree = 1, f_min = 1, f_max = 150, td = [], fd = [],
            freq_slider = None\<rparr> \<and>
   0 < duree \<lparr>fs = 1, freq = 0, duree = 1, f_min = 1, f_max = 150, td = [], fd = [],
            freq_slider = None\<rparr> \<and>
   freq \<lparr>fs = 1, freq = 0, duree = 1, f_min = 1, f_max = 150, td = [], fd = [],
            freq_slider = None\<rparr> = 0 \<and>
   (\<exists>t sig freqs tf.
      gen_sig \<lparr>fs = 1, freq = 0, duree = 1, f_min = 1, f_max = 150, td = [], fd = [],
               freq_slider = None\<rparr> = Inr (t, sig) \<and>
      compute_dft 1 1 sig = Inr (freqs, tf) \<and> length tf = 3 \<and> cmod (tf ! 2) = 0)"
proof -
  let ?s = "\<lparr>fs = 1, freq = 0, duree = 1, f_min = 1, f_max = 150, td = [], fd = [],
             freq_slider = None\<rparr>"
  from zero_frequency_spectrum [of ?s]
  obtain t sig freqs tf where g: "gen_sig ?s = Inr (t, sig)"
    and c: "compute_dft (fs ?s) (duree ?s) sig = Inr (freqs, tf)"
    and l: "length tf = length freqs"
    and z: "\<forall>k<length tf. cmod (tf ! k) = 0"
    by auto
  from c have "length freqs = 3"
    by (auto simp: compute_dft_ok py_mul_def fl_1 fl_3 arange_0_3_1)
  with l have n: "length tf = 3" by simp
  then have "(2::nat) < length tf" by simp
  with z have "cmod (tf ! 2) = 0" by blast
  with g c n show ?thesis by auto
qed

subsection \<open>The aliasing markers\<close>

text \<open>
  Claim C5. On a cleared frequency-domain axes, \<open>init_freq_domain\<close> draws vertical
  lines at exactly the positions
  \<open>{(k - 1) * fs + freq | k \<in> 0..3} \<union> {- freq + (k + 1) * fs | k \<in> 0..3} \<union> {freq}\<close>,
  and the only line drawn without a dash pattern is the one at \<open>freq\<close>.
\<close>

theorem aliasing_markers:
  assumes "fs s \<noteq> 0" and "duree s \<noteq> 0" and "fd s = []"
  shows "\<exists>s'. init_freq_domain s = (None, s') \<and>
           marker_positions (fd s') =
             (\<lambda>k. (of_int k - 1) * fs s + freq s) ` {0..3} \<union>
             (\<lambda>k. - freq s + (of_int k + 1) * fs s) ` {0..3} \<union> {freq s} \<and>
           filter solid_axvline (fd s') = [Axvline (freq s) ''b'' None 2]"
proof -
  from assms(1,2) obtain freqs tf and sig :: "real list" where
    r: "init_freq_domain s =
     (None, s\<lparr>fd := fd s @ [Plot freqs (map cmod tf) None] @
        concat (map (\<lambda>idx.
             [Axvline ((of_int idx - 1) * fs s + freq s) ''b'' (Some (1, 1)) 2,
              Axvline (- freq s + (of_int idx + 1) * fs s) ''r'' (Some (1, 1)) 2]) (map int [0..<4])) @
        [Axvline (freq s) ''b'' None 2] @
        [FillBetween (map (\<lambda>i. freqs ! i) [0..<length sig])
                     (map (\<lambda>i. cmod (tf ! i)) [0..<length sig]) 0,
         SetXlim 0 (py_mul 3 (fs s)),
         SetTitle (''Domaine fr'' @ [CHR 0xE9] @ ''quenciel''),
         SetXlabel (''Fr'' @ [CHR 0xE9] @ ''quence [Hz]''),
         SetYlabel ''Amplitude'']\<rparr>)"
    using init_freq_domain_ok [of s] by blast
  let ?s' = "snd (init_freq_domain s)"
  have pos: "marker_positions (fd ?s') =
             (\<lambda>k. (of_int k - 1) * fs s + freq s) ` {0..3} \<union>
             (\<lambda>k. - freq s + (of_int k + 1) * fs s) ` {0..3} \<union> {freq s}"
    unfolding r marker_positions_def List.map_filter_def int_0_3 upt4 using assms(3)
    by auto
  have solid: "filter solid_axvline (fd ?s') = [Axvline (freq s) ''b'' None 2]"
    unfolding r upt4 using assms(3) by simp
  from r have "init_freq_domain s = (None, ?s')"
    by simp
  with pos solid show ?thesis
    by blast
qed

theorem aliasing_markers_witness:
  "fs \<lparr>fs = 50, freq = 1, duree = 3, f_min = 1, f_max = 150, td = [], fd = [],
        freq_slider = None\<rparr> \<noteq> 0 \<and>
   duree \<lparr>fs = 50, freq = 1, duree = 3, f_min = 1, f_max = 150, td = [], fd = [],
        freq_slider = None\<rparr> \<noteq> 0 \<and>
   fd \<lparr>fs = 50, freq = 1, duree = 3, f_min = 1, f_max = 150, td = [], fd = [],
        freq_slider = None\<rparr> = [] \<and>
   (\<exists>s'. init_freq_domain \<lparr>fs = 50, freq = 1, duree = 3, f_min = 1, f_max = 150, td = [],
             fd = [], freq_slider = None\<rparr> = (None, s') \<and>
      marker_positions (fd s') = {- 49, 1, 51, 101, 49, 99, 149, 199} \<and>
      filter solid_axvline (fd s') = [Axvline 1 ''b'' None 2])"
proof -
  let ?s = "\<lparr>fs = 50, freq = 1, duree = 3, f_min = 1, f_max = 150, td = [], fd = [],
             freq_slider = None\<rparr>"
  have "(\<lambda>k. (real_of_int k - 1) * fs ?s + freq ?s) ` {0..3} \<union>
        (\<lambda>k. - freq ?s + (real_of_int k + 1) * fs ?s) ` {0..3} \<union> {freq ?s} =
        {- 49, 1, 51, 101, 49, 99, 149, 199}"
    unfolding int_0_3 by auto
  with aliasing_markers [of ?s] show ?thesis
    by simp
qed

subsection \<open>The frame of \<open>update\<close>\<close>

text \<open>
  Claim C6. Whatever the state and the new frequency, \<open>update\<close> stores the new
  frequency and leaves the sample rate, the window duration and both frequency bounds
  as they were; and from every state the controller can be in, \<open>update\<close> returns
  without raising, so the controller is idle again.
\<close>

theorem update_changes_only_frequency:
  "freq (snd (update f s)) = f \<and> fs (snd (update f s)) = fs s \<and>
   duree (snd (update f s)) = duree s \<and> f_min (snd (update f s)) = f_min s \<and>
   f_max (snd (update f s)) = f_max s \<and>
   (reachable s \<longrightarrow> fst (update f s) = None)"
proof -
  obtain a b where "snd (update f s) = s\<lparr>freq := f, td := a, fd := b\<rparr>"
    using update_frame by blast
  moreover have "fst (update f s) = None" if "reachable s"
    using reachable_config [OF that] by (intro update_returns) simp_all
  ultimately show ?thesis
    by simp
qed

theorem update_changes_only_frequency_witness:
  "reachable (snd Aliasing_Window) \<and>
   freq (snd (update 25 (snd Aliasing_Window))) = 25 \<and>
   fs (snd (update 25 (snd Aliasing_Window))) = 50 \<and>
   duree (snd (update 25 (snd Aliasing_Window))) = 3 \<and>
   f_min (snd (update 25 (snd Aliasing_Window))) = 1 \<and>
   f_max (snd (update 25 (snd Aliasing_Window))) = 150 \<and>
   fst (update 25 (snd Aliasing_Window)) = None"
  using update_changes_only_frequency [of 25 "snd Aliasing_Window"]
    reachable_config [OF constructed] constructed
  by simp

end
